theory Spec2Isabelle
  imports Complex_Main "HOL-Library.Word" "HOL-Library.Signed_Division" "HOL-Library.Multiset"
    "HOL-Library.Sublist"
begin

section \<open>Data model (package runtime)\<close>

text \<open>
  Go's \<^verbatim>\<open>time.Time\<close> is an instant; it is modelled as an integer count of
  nanoseconds, and a \<^verbatim>\<open>time.Duration\<close> likewise. Two readings are \<^verbatim>\<open>==\<close> here
  when they are the same instant (Go also compares the location and the monotonic
  reading they carry). \<^verbatim>\<open>int\<close> and \<^verbatim>\<open>int64\<close> are 64-bit two's complement words
  (the 64-bit platforms the tool is packaged for). A \<^verbatim>\<open>float64\<close> is a finite number,
  an infinity or NaN; only Go's \<^verbatim>\<open>==\<close> on it is used below, and NaN is equal to
  nothing, not even to itself. The conversion \<^verbatim>\<open>float64(n)\<close> is taken as exact, which
  it is up to \<open>2^53\<close>; the sizes converted are volume sizes in GiB.
\<close>

type_synonym time = int
type_synonym duration = int
type_synonym int64 = "64 word"

datatype float64 = NaN | NegInf | PosInf | Fin real

definition float64_eq :: "float64 \<Rightarrow> float64 \<Rightarrow> bool" where
  "float64_eq a b = (a \<noteq> NaN \<and> b \<noteq> NaN \<and> a = b)"

definition float64_of_int64 :: "int64 \<Rightarrow> float64" where
  "float64_of_int64 n = Fin (real_of_int (sint n))"

definition Hour :: duration where
  "Hour = 3600 * 1000000000"

definition Second :: duration where
  "Second = 1000000000"

record EBSVolumeConfig =
  AWSVolumeID :: string
  AWSDeviceName :: string
  AWSRegion :: string
  IncrementSizeGB :: int64
  IncrementSizePercent :: int64
  ResizeThreshold :: int64

record EBSVolumeState =
  st_AWSVolumeID :: string
  st_AWSDeviceName :: string
  st_LocalMountPoint :: string
  st_AWSDeviceSizeGB :: float64
  st_LocalDiskSizeGB :: float64
  st_UsedSpaceGB :: float64

record EBSVolumeResize =
  va_StartTime :: time
  va_AWSVolumeID :: string
  va_AWSDeviceName :: string
  va_AWSRegion :: string
  va_OriginalSizeGB :: float64
  va_NewSize :: float64

record FilesystemResize =
  fa_StartTime :: time
  fa_AWSVolumeID :: string
  fa_AWSDeviceName :: string
  fa_LocalMountPoint :: string
  fa_AWSVolumeSize :: float64
  fa_OriginalSizeGB :: float64
  fa_NewSize :: float64

record Event =
  EventTime :: time
  VolumeState :: EBSVolumeState
  VolumeAction :: EBSVolumeResize
  FSAction :: FilesystemResize
  ExecutionSuccess :: bool

type_synonym EventLog = "string \<rightharpoonup> Event list"

text \<open>Go's zero values, as \<^verbatim>\<open>InitialiseEvent\<close> and \<^verbatim>\<open>InitialiseEBSVolumeState\<close> return them.\<close>

definition InitialiseEBSVolumeState :: EBSVolumeState where
  "InitialiseEBSVolumeState =
     \<lparr>st_AWSVolumeID = [], st_AWSDeviceName = [], st_LocalMountPoint = [],
      st_AWSDeviceSizeGB = Fin 0, st_LocalDiskSizeGB = Fin 0, st_UsedSpaceGB = Fin 0\<rparr>"

definition zero_EBSVolumeResize :: EBSVolumeResize where
  "zero_EBSVolumeResize =
     \<lparr>va_StartTime = 0, va_AWSVolumeID = [], va_AWSDeviceName = [], va_AWSRegion = [],
      va_OriginalSizeGB = Fin 0, va_NewSize = Fin 0\<rparr>"

definition zero_FilesystemResize :: FilesystemResize where
  "zero_FilesystemResize =
     \<lparr>fa_StartTime = 0, fa_AWSVolumeID = [], fa_AWSDeviceName = [], fa_LocalMountPoint = [],
      fa_AWSVolumeSize = Fin 0, fa_OriginalSizeGB = Fin 0, fa_NewSize = Fin 0\<rparr>"

definition InitialiseEvent :: Event where
  "InitialiseEvent =
     \<lparr>EventTime = 0, VolumeState = InitialiseEBSVolumeState,
      VolumeAction = zero_EBSVolumeResize, FSAction = zero_FilesystemResize,
      ExecutionSuccess = False\<rparr>"

text \<open>
  The three event constructors read the clock (\<^verbatim>\<open>time.Now()\<close>); the reading is
  their first argument here.
\<close>

definition CreateVolumeStateEvent :: "time \<Rightarrow> EBSVolumeState \<Rightarrow> bool \<Rightarrow> Event" where
  "CreateVolumeStateEvent now volumeState success =
     InitialiseEvent\<lparr>EventTime := now, VolumeState := volumeState, ExecutionSuccess := success\<rparr>"

definition CreateVolumeResizeActionEvent :: "time \<Rightarrow> EBSVolumeResize \<Rightarrow> bool \<Rightarrow> Event" where
  "CreateVolumeResizeActionEvent now volumeAction success =
     InitialiseEvent\<lparr>EventTime := now, VolumeAction := volumeAction, ExecutionSuccess := success\<rparr>"

definition CreateFSActionEvent :: "time \<Rightarrow> FilesystemResize \<Rightarrow> bool \<Rightarrow> Event" where
  "CreateFSActionEvent now fsAction success =
     InitialiseEvent\<lparr>EventTime := now, FSAction := fsAction, ExecutionSuccess := success\<rparr>"

section \<open>EventLog: AddEvent and PruneStaleEvents (runtime/methods.go)\<close>

datatype Level = LogDebug | LogInfo | LogWarning | LogError | LogFatal

text \<open>
  \<^verbatim>\<open>AddEvent\<close> of runtime/methods.go. The range loop returns at the first stored event
  with the same \<^verbatim>\<open>EventTime\<close> and the same \<^verbatim>\<open>ExecutionSuccess\<close>; the state
  snapshot is not compared. Otherwise the event is appended and one line is logged: at
  debug level for a successful event, at error level for a failed one. The result is the
  new log and the level of the line logged, if any.
\<close>

fun is_duplicate :: "Event list \<Rightarrow> Event \<Rightarrow> bool" where
  "is_duplicate [] event = False"
| "is_duplicate (existingEvent # rest) event =
     (if EventTime existingEvent = EventTime event
         \<and> ExecutionSuccess existingEvent = ExecutionSuccess event
      then True else is_duplicate rest event)"

definition AddEvent :: "EventLog \<Rightarrow> string \<Rightarrow> Event \<Rightarrow> EventLog \<times> Level option" where
  "AddEvent eventLog volumeID event =
     (case eventLog volumeID of
        Some existingEvents \<Rightarrow>
          if is_duplicate existingEvents event then (eventLog, None)
          else (eventLog(volumeID \<mapsto> existingEvents @ [event]),
                Some (if ExecutionSuccess event then LogDebug else LogError))
      | None \<Rightarrow>
          (eventLog(volumeID \<mapsto> [event]),
           Some (if ExecutionSuccess event then LogDebug else LogError)))"

text \<open>
  \<^verbatim>\<open>Event.Equals\<close>, defined in the same file: the same \<^verbatim>\<open>EventTime\<close>, the same
  \<^verbatim>\<open>VolumeState\<close> (Go's struct \<^verbatim>\<open>==\<close>: strings by value, floats by \<^verbatim>\<open>==\<close>) and the
  same \<^verbatim>\<open>ExecutionSuccess\<close>.
\<close>

definition EBSVolumeState_eq :: "EBSVolumeState \<Rightarrow> EBSVolumeState \<Rightarrow> bool" where
  "EBSVolumeState_eq a b =
     (st_AWSVolumeID a = st_AWSVolumeID b \<and> st_AWSDeviceName a = st_AWSDeviceName b
      \<and> st_LocalMountPoint a = st_LocalMountPoint b
      \<and> float64_eq (st_AWSDeviceSizeGB a) (st_AWSDeviceSizeGB b)
      \<and> float64_eq (st_LocalDiskSizeGB a) (st_LocalDiskSizeGB b)
      \<and> float64_eq (st_UsedSpaceGB a) (st_UsedSpaceGB b))"

definition Equals :: "Event \<Rightarrow> Event \<Rightarrow> bool" where
  "Equals e otherEvent =
     (EventTime e = EventTime otherEvent
      \<and> EBSVolumeState_eq (VolumeState e) (VolumeState otherEvent)
      \<and> ExecutionSuccess e = ExecutionSuccess otherEvent)"

text \<open>
  \<^verbatim>\<open>AddEvent\<close> of source_code/runtime/methods.go: the loop compares with \<^verbatim>\<open>Equals\<close>,
  nothing is logged, and the caller gets an error for a failed event that was stored.
\<close>

fun is_duplicate_equals :: "Event list \<Rightarrow> Event \<Rightarrow> bool" where
  "is_duplicate_equals [] event = False"
| "is_duplicate_equals (existingEvent # rest) event =
     (if Equals existingEvent event then True else is_duplicate_equals rest event)"

definition AddEvent_source_code :: "EventLog \<Rightarrow> string \<Rightarrow> Event \<Rightarrow> EventLog \<times> bool" where
  "AddEvent_source_code eventLog volumeID event =
     (case eventLog volumeID of
        Some existingEvents \<Rightarrow>
          if is_duplicate_equals existingEvents event then (eventLog, False)
          else (eventLog(volumeID \<mapsto> existingEvents @ [event]), \<not> ExecutionSuccess event)
      | None \<Rightarrow> (eventLog(volumeID \<mapsto> [event]), \<not> ExecutionSuccess event))"

text \<open>
  \<^verbatim>\<open>PruneStaleEvents\<close>: for every key of the map, keep the events whose time is
  \<^verbatim>\<open>After(oneDayAgo)\<close>, in order, and store the kept slice under the same key (an empty
  one when nothing is kept). The clock reading \<^verbatim>\<open>time.Now()\<close> is the argument \<open>now\<close>.
\<close>

definition After :: "time \<Rightarrow> time \<Rightarrow> bool" where
  "After t u = (u < t)"

definition PruneStaleEvents :: "time \<Rightarrow> EventLog \<Rightarrow> EventLog" where
  "PruneStaleEvents now histories =
     (let oneDayAgo = now + (- 24 * Hour) in
      (\<lambda>volumeID. case histories volumeID of
         None \<Rightarrow> None
       | Some volumeHistories \<Rightarrow>
           Some (filter (\<lambda>history. After (EventTime history) oneDayAgo) volumeHistories)))"

text \<open>The claim's reading of pruning: an event goes when it is older than 24 hours.\<close>

definition older_than_24h :: "time \<Rightarrow> Event \<Rightarrow> bool" where
  "older_than_24h now e = (EventTime e < now - 24 * Hour)"

definition at_time :: "time \<Rightarrow> Event" where
  "at_time t = InitialiseEvent\<lparr>EventTime := t\<rparr>"

section \<open>Errors and collaborators\<close>

text \<open>
  A Go \<^verbatim>\<open>error\<close> value: a failure reported by a collaborator, a failure wrapped with
  context by \<^verbatim>\<open>fmt.Errorf("...%w", err)\<close>, the refusal to resize a volume that is in
  the optimizing state (the spec's ConcurrentModificationError), and the combined message
  the older resize routine builds from its two step errors.
\<close>

datatype error =
    Failure string
  | Wrapped string error
  | VolumeOptimizing string string
  | Combined "error option" "error option"

text \<open>
  What \<^verbatim>\<open>DescribeVolumesModifications\<close> answers: an AWS error with its code, some other
  error, or the modification states of the volumes found.
\<close>

datatype sdk_error = AwsError string | OtherError

definition VolumeModificationStateOptimizing :: string where
  "VolumeModificationStateOptimizing = ''optimizing''"

definition CheckVolumeState :: "sdk_error + string list \<Rightarrow> error + bool" where
  "CheckVolumeState result =
     (case result of
        Inl (AwsError code) \<Rightarrow>
          if code = ''InvalidVolumeModification.NotFound'' then Inr False
          else Inl (Wrapped ''failed to get volume modification information from AWS''
                      (Failure code))
      | Inl OtherError \<Rightarrow>
          Inl (Wrapped ''failed to get volume modification information from AWS''
                 (Failure []))
      | Inr [] \<Rightarrow> Inl (Failure ''failed to find volume modification information'')
      | Inr (modificationState # others) \<Rightarrow>
          Inr (modificationState = VolumeModificationStateOptimizing))"

text \<open>
  The answers of the collaborators during one call of \<^verbatim>\<open>PerformResize\<close>: the mount
  point lookup, the first and the second \<^verbatim>\<open>ResizeFilesystem\<close>, the two size queries,
  the modification query, \<^verbatim>\<open>aws.ResizeVolume\<close>, and the successive clock readings.
\<close>

record ResizeEnv =
  mountPoint :: "error + string"
  fsResize1 :: "error option"
  awsDeviceSize :: "error + int64"
  localDiskSize :: "error + float64"
  modifications :: "sdk_error + string list"
  awsResize :: "error option"
  fsResize2 :: "error option"
  clock :: "nat \<Rightarrow> time"

text \<open>What one call does to the outside, in order.\<close>

datatype action =
    MountPointQuery
  | FilesystemGrow bool
  | ProviderSizeQuery
  | LocalSizeQuery
  | ModificationStateQuery
  | ProviderResize int64 bool
  | StabilizationDelay duration

record ResizeResult =
  awsResized :: bool
  fsResized :: bool
  resizeErr :: "error option"
  resultLog :: EventLog
  effects :: "action list"

text \<open>\<^verbatim>\<open>(*log)[id] = append((*log)[id], event)\<close>: no duplicate check on this path.\<close>

definition append_event :: "EventLog \<Rightarrow> string \<Rightarrow> Event \<Rightarrow> EventLog" where
  "append_event evlog volumeID event =
     evlog(volumeID \<mapsto> (case evlog volumeID of None \<Rightarrow> [] | Some es \<Rightarrow> es) @ [event])"

section \<open>The resize coordinator: PerformResize (package resize, three results)\<close>

definition PerformResize ::
  "ResizeEnv \<Rightarrow> EBSVolumeConfig \<Rightarrow> int64 \<Rightarrow> EventLog \<Rightarrow> ResizeResult" where
  "PerformResize env volume newSize evlog =
     (case mountPoint env of
        Inl err \<Rightarrow>
          \<lparr>awsResized = False, fsResized = False,
           resizeErr = Some (Wrapped ''failed to get local mount point of volume'' err),
           resultLog = evlog, effects = [MountPointQuery]\<rparr>
      | Inr localMountPoint \<Rightarrow>
         (let fsAction =
                \<lparr>fa_StartTime = clock env 0, fa_AWSVolumeID = AWSVolumeID volume,
                 fa_AWSDeviceName = AWSDeviceName volume, fa_LocalMountPoint = localMountPoint,
                 fa_AWSVolumeSize = Fin 0, fa_OriginalSizeGB = Fin 0,
                 fa_NewSize = float64_of_int64 newSize\<rparr>;
              fsResizeErr = fsResize1 env;
              log1 = append_event evlog (AWSVolumeID volume)
                       (CreateFSActionEvent (clock env 1) fsAction (fsResizeErr = None));
              eff1 = [MountPointQuery, FilesystemGrow (fsResizeErr = None)]
          in case awsDeviceSize env of
               Inl err \<Rightarrow>
                 \<lparr>awsResized = False, fsResized = False,
                  resizeErr = Some (Wrapped ''failed to get the size of the EBS volume'' err),
                  resultLog = log1, effects = eff1 @ [ProviderSizeQuery]\<rparr>
             | Inr currentAWSVolumeSize \<Rightarrow>
                (case localDiskSize env of
                   Inl err \<Rightarrow>
                     \<lparr>awsResized = False, fsResized = False,
                      resizeErr =
                        Some (Wrapped ''failed to get the size of the local filesystem'' err),
                      resultLog = log1,
                      effects = eff1 @ [ProviderSizeQuery, LocalSizeQuery]\<rparr>
                 | Inr currentLocalDiskSize \<Rightarrow>
                    (let fsResized1 = (fsResizeErr = None);
                         eff2 = eff1 @ [ProviderSizeQuery, LocalSizeQuery, ModificationStateQuery]
                     in case CheckVolumeState (modifications env) of
                          Inl err \<Rightarrow>
                            \<lparr>awsResized = False, fsResized = fsResized1, resizeErr = Some err,
                             resultLog = log1, effects = eff2\<rparr>
                        | Inr isOptimizing \<Rightarrow>
                            if isOptimizing then
                              \<lparr>awsResized = False, fsResized = fsResized1,
                               resizeErr =
                                 Some (VolumeOptimizing (AWSVolumeID volume) (AWSDeviceName volume)),
                               resultLog = log1, effects = eff2\<rparr>
                            else
                             (let volumeAction =
                                    \<lparr>va_StartTime = clock env 2,
                                     va_AWSVolumeID = AWSVolumeID volume,
                                     va_AWSDeviceName = AWSDeviceName volume,
                                     va_AWSRegion = AWSRegion volume,
                                     va_OriginalSizeGB = float64_of_int64 currentAWSVolumeSize,
                                     va_NewSize = float64_of_int64 newSize\<rparr>
                              in case awsResize env of
                                   Some awsResizeErr \<Rightarrow>
                                     \<lparr>awsResized = False, fsResized = fsResized1,
                                      resizeErr = Some awsResizeErr,
                                      resultLog = append_event log1 (AWSVolumeID volume)
                                        (CreateVolumeResizeActionEvent (clock env 3) volumeAction False),
                                      effects = eff2 @ [ProviderResize newSize False]\<rparr>
                                 | None \<Rightarrow>
                                    (let log2 = append_event log1 (AWSVolumeID volume)
                                           (CreateVolumeResizeActionEvent (clock env 3) volumeAction True);
                                         eff3 = eff2 @ [ProviderResize newSize True,
                                                        StabilizationDelay (Second * 60)];
                                         fsAction2 =
                                           \<lparr>fa_StartTime = clock env 4,
                                            fa_AWSVolumeID = AWSVolumeID volume,
                                            fa_AWSDeviceName = AWSDeviceName volume,
                                            fa_LocalMountPoint = localMountPoint,
                                            fa_AWSVolumeSize = float64_of_int64 currentAWSVolumeSize,
                                            fa_OriginalSizeGB = currentLocalDiskSize,
                                            fa_NewSize = float64_of_int64 newSize\<rparr>;
                                         eff4 = eff3 @ [FilesystemGrow (fsResize2 env = None)]
                                     in case fsResize2 env of
                                          None \<Rightarrow>
                                            \<lparr>awsResized = True, fsResized = True, resizeErr = None,
                                             resultLog = append_event log2 (AWSVolumeID volume)
                                               (CreateFSActionEvent (clock env 5) fsAction2 True),
                                             effects = eff4\<rparr>
                                        | Some fsResizeErr2 \<Rightarrow>
                                            \<lparr>awsResized = True, fsResized = fsResized1,
                                             resizeErr = Some fsResizeErr2,
                                             resultLog = append_event log2 (AWSVolumeID volume)
                                               (CreateFSActionEvent (clock env 5) fsAction2 False),
                                             effects = eff4\<rparr>))))))"

text \<open>
  The older \<^verbatim>\<open>PerformResize\<close> of resize/resize.go, which the older main loop calls: one
  result, the provider first, a 30 second sleep whatever the provider answered, then the
  filesystem (its answer is \<open>fsResize1\<close>, the only filesystem call).
\<close>

definition PerformResize_legacy ::
  "ResizeEnv \<Rightarrow> EBSVolumeConfig \<Rightarrow> int64 \<Rightarrow> EventLog \<Rightarrow> error option \<times> EventLog \<times> action list" where
  "PerformResize_legacy env volume newSize evlog =
     (case mountPoint env of
        Inl err \<Rightarrow>
          (Some (Wrapped ''failed to get local mount point of volume'' err), evlog,
           [MountPointQuery])
      | Inr localMountPoint \<Rightarrow>
         (case awsDeviceSize env of
            Inl err \<Rightarrow>
              (Some (Wrapped ''failed to get the size of the EBS volume'' err), evlog,
               [MountPointQuery, ProviderSizeQuery])
          | Inr currentAWSVolumeSize \<Rightarrow>
             (case localDiskSize env of
                Inl err \<Rightarrow>
                  (Some (Wrapped ''failed to get the size of the local filesystem'' err), evlog,
                   [MountPointQuery, ProviderSizeQuery, LocalSizeQuery])
              | Inr currentLocalDiskSize \<Rightarrow>
                 (let volumeAction =
                        \<lparr>va_StartTime = clock env 0, va_AWSVolumeID = AWSVolumeID volume,
                         va_AWSDeviceName = AWSDeviceName volume, va_AWSRegion = AWSRegion volume,
                         va_OriginalSizeGB = float64_of_int64 currentAWSVolumeSize,
                         va_NewSize = float64_of_int64 newSize\<rparr>;
                      awsResizeErr = awsResize env;
                      log1 = append_event evlog (AWSVolumeID volume)
                               (CreateVolumeResizeActionEvent (clock env 1) volumeAction
                                  (awsResizeErr = None));
                      fsAction =
                        \<lparr>fa_StartTime = clock env 2, fa_AWSVolumeID = AWSVolumeID volume,
                         fa_AWSDeviceName = AWSDeviceName volume,
                         fa_LocalMountPoint = localMountPoint,
                         fa_AWSVolumeSize = float64_of_int64 currentAWSVolumeSize,
                         fa_OriginalSizeGB = currentLocalDiskSize,
                         fa_NewSize = float64_of_int64 newSize\<rparr>;
                      fsResizeErr = fsResize1 env;
                      log2 = append_event log1 (AWSVolumeID volume)
                               (CreateFSActionEvent (clock env 3) fsAction (fsResizeErr = None));
                      eff = [MountPointQuery, ProviderSizeQuery, LocalSizeQuery,
                             ProviderResize newSize (awsResizeErr = None),
                             StabilizationDelay (Second * 30),
                             FilesystemGrow (fsResizeErr = None)]
                  in if awsResizeErr \<noteq> None \<or> fsResizeErr \<noteq> None
                     then (Some (Combined awsResizeErr fsResizeErr), log2, eff)
                     else (None, log2, eff)))))"

section \<open>The new size (CalculateNewSize and its caller in run)\<close>

text \<open>
  Go's \<^verbatim>\<open>/\<close> on \<^verbatim>\<open>int64\<close> truncates towards zero; \<^verbatim>\<open>*\<close> and \<^verbatim>\<open>+\<close> wrap around.
  The divisor below is the constant 100, so the division never panics.
\<close>

definition int64_div :: "int64 \<Rightarrow> int64 \<Rightarrow> int64" where
  "int64_div a b = word_of_int (sint a sdiv sint b)"

definition CalculateNewSize :: "EBSVolumeConfig \<Rightarrow> int64 \<Rightarrow> int64" where
  "CalculateNewSize config currentSize =
     (let incrementSize = int64_div (currentSize * IncrementSizePercent config) 100;
          newSize = currentSize + incrementSize
      in newSize)"

text \<open>The choice \<^verbatim>\<open>run\<close> makes between the absolute increment and the percentage.\<close>

definition new_size :: "EBSVolumeConfig \<Rightarrow> int64 \<Rightarrow> int64" where
  "new_size volume currentSize =
     (if 0 <s IncrementSizeGB volume then currentSize + IncrementSizeGB volume
      else CalculateNewSize volume currentSize)"

section \<open>The polling loop (run in main.go)\<close>

text \<open>
  \<^verbatim>\<open>monitor.GetVolumeState\<close> fills the snapshot field by field and returns what it has,
  with the error, at the first collaborator that fails.
\<close>

record FetchEnv =
  fetchMountPoint :: "error + string"
  fetchDeviceSize :: "error + int64"
  fetchLocalDiskSize :: "error + float64"
  fetchUsedSpace :: "error + float64"

definition GetVolumeState :: "FetchEnv \<Rightarrow> EBSVolumeConfig \<Rightarrow> EBSVolumeState \<times> error option" where
  "GetVolumeState env volumeConfig =
     (let state0 = InitialiseEBSVolumeState
            \<lparr>st_AWSVolumeID := AWSVolumeID volumeConfig,
             st_AWSDeviceName := AWSDeviceName volumeConfig\<rparr>
      in case fetchMountPoint env of
           Inl err \<Rightarrow>
             (state0, Some (Wrapped ''failed to get local mount point information'' err))
         | Inr mnt \<Rightarrow>
            (let state1 = state0\<lparr>st_LocalMountPoint := mnt\<rparr>
             in case fetchDeviceSize env of
                  Inl err \<Rightarrow> (state1, Some (Wrapped ''failed to get device size'' err))
                | Inr devGB \<Rightarrow>
                   (let state2 = state1\<lparr>st_AWSDeviceSizeGB := float64_of_int64 devGB\<rparr>
                    in case fetchLocalDiskSize env of
                         Inl err \<Rightarrow> (state2, Some (Wrapped ''failed to get local disk size'' err))
                       | Inr mntGB \<Rightarrow>
                          (let state3 = state2\<lparr>st_LocalDiskSizeGB := mntGB\<rparr>
                           in case fetchUsedSpace env of
                                Inl err \<Rightarrow>
                                  (state3, Some (Wrapped ''failed to get disk utilization'' err))
                              | Inr used \<Rightarrow> (state3\<lparr>st_UsedSpaceGB := used\<rparr>, None)))))"

text \<open>
  What the outside answers while one volume is checked: the state fetch, the clock reading
  of the state event, the verdict of \<^verbatim>\<open>IsThresholdExceeded\<close> (a comparison of
  floating-point products, taken as given), the size query made by \<^verbatim>\<open>run\<close> itself, and
  the answers during \<^verbatim>\<open>PerformResize\<close>.
\<close>

record CycleEnv =
  fetchEnv :: FetchEnv
  eventClock :: time
  thresholdExceeded :: bool
  currentSizeQuery :: "error + int64"
  resizeEnv :: ResizeEnv

definition errorThreshold :: int where
  "errorThreshold = 5"

text \<open>
  The body of the \<^verbatim>\<open>for index\<close> loop of the older main.go, for the volume at the current
  index: the new error counters, the new event log, and whether the volume is to be
  removed (the branch that splices the list and continues). A missing key of the Go map
  \<^verbatim>\<open>errorLog\<close> reads as 0, so the counters are a total function.
\<close>

definition check_volume ::
  "CycleEnv \<Rightarrow> EBSVolumeConfig \<Rightarrow> (string \<Rightarrow> int) \<Rightarrow> EventLog \<Rightarrow> bool \<times> (string \<Rightarrow> int) \<times> EventLog" where
  "check_volume env volume errorLog0 evlog =
     (let vid = AWSVolumeID volume;
          (volumeState, err) = GetVolumeState (fetchEnv env) volume;
          errorLog1 = (if err \<noteq> None then errorLog0(vid := errorLog0 vid + 1)
                       else errorLog0(vid := 0))
      in if err \<noteq> None then
           (let event = CreateVolumeStateEvent (eventClock env) volumeState False;
                evlog1 = fst (AddEvent evlog vid event)
            in if errorLog1 vid \<ge> errorThreshold then (True, errorLog1, evlog1)
               else (False, errorLog1, evlog1))
         else
           (let event = CreateVolumeStateEvent (eventClock env) volumeState True;
                evlog1 = fst (AddEvent evlog vid event)
            in if thresholdExceeded env then
                 (case currentSizeQuery env of
                    Inl sizeErr \<Rightarrow> (False, errorLog1(vid := errorLog1 vid + 1), evlog1)
                  | Inr currentSize \<Rightarrow>
                     (let errorLog2 = errorLog1(vid := 0);
                          newSize = new_size volume currentSize;
                          (resizeError, evlog2, eff) =
                             PerformResize_legacy (resizeEnv env) volume newSize evlog1
                      in if resizeError \<noteq> None
                         then (False, errorLog2(vid := errorLog2 vid + 1), evlog2)
                         else (False, errorLog2(vid := 0), evlog2)))
               else (False, errorLog1, evlog1)))"


text \<open>
  The state of one pass: the active list \<^verbatim>\<open>appRuntime.Configuration.Volumes\<close>, the
  error counters and the event log; and, for the record, the volumes read at
  \<^verbatim>\<open>volume := Volumes[index]\<close> in order and those reported as removed.
\<close>

record LoopState =
  Volumes :: "EBSVolumeConfig list"
  errorLog :: "string \<Rightarrow> int"
  evLog :: EventLog
  visited :: "EBSVolumeConfig list"
  removed :: "EBSVolumeConfig list"

text \<open>
  \<^verbatim>\<open>for index := 0; index < len(Volumes); { ... }\<close>. A removal replaces the list by
  \<^verbatim>\<open>append(Volumes[:index], Volumes[index+1:]...)\<close> and continues with the same index;
  every other path ends in \<^verbatim>\<open>index++\<close>. The \<open>k\<close>-th volume checked gets the answers
  \<open>envs k\<close>.
\<close>

function volumes_loop ::
  "(CycleEnv \<Rightarrow> EBSVolumeConfig \<Rightarrow> (string \<Rightarrow> int) \<Rightarrow> EventLog \<Rightarrow> bool \<times> (string \<Rightarrow> int) \<times> EventLog)
     \<Rightarrow> (nat \<Rightarrow> CycleEnv) \<Rightarrow> nat \<Rightarrow> nat \<Rightarrow> LoopState \<Rightarrow> LoopState" where
  "volumes_loop check envs k index s =
     (if index < length (Volumes s) then
        (let volume = Volumes s ! index;
             verdict = check (envs k) volume (errorLog s) (evLog s)
         in if fst verdict then
              volumes_loop check envs (Suc k) index
                (s\<lparr>Volumes := take index (Volumes s) @ drop (Suc index) (Volumes s),
                   errorLog := fst (snd verdict), evLog := snd (snd verdict),
                   visited := visited s @ [volume], removed := removed s @ [volume]\<rparr>)
            else
              volumes_loop check envs (Suc k) (Suc index)
                (s\<lparr>errorLog := fst (snd verdict), evLog := snd (snd verdict),
                   visited := visited s @ [volume]\<rparr>))
      else s)"
  by pat_completeness auto
termination
  by (relation "measure (\<lambda>(check, envs, k, index, s). length (Volumes s) - index)") auto

declare volumes_loop.simps [simp del]

text \<open>
  One turn of the outer \<^verbatim>\<open>for\<close>: stop (\<^verbatim>\<open>os.Exit(1)\<close>, here \<open>None\<close>) when no volume
  is left before or after the pass; otherwise prune the event log.
\<close>

definition poll_cycle ::
  "(CycleEnv \<Rightarrow> EBSVolumeConfig \<Rightarrow> (string \<Rightarrow> int) \<Rightarrow> EventLog \<Rightarrow> bool \<times> (string \<Rightarrow> int) \<times> EventLog)
     \<Rightarrow> (nat \<Rightarrow> CycleEnv) \<Rightarrow> time \<Rightarrow> LoopState \<Rightarrow> LoopState option" where
  "poll_cycle check envs now s =
     (if length (Volumes s) = 0 then None
      else (let s1 = volumes_loop check envs 0 0 (s\<lparr>visited := [], removed := []\<rparr>)
            in if length (Volumes s1) = 0 then None
               else Some (s1\<lparr>evLog := PruneStaleEvents now (evLog s1)\<rparr>)))"

text \<open>
  What a pass is meant to do, in the words of the claim about it: the loop body is applied
  to every volume of the list as it stood at the start of the pass, once each and in order,
  the \<open>k\<close>-th with the answers \<open>envs k\<close> and with the counters and the event log the
  volumes before it left; a volume the body removes goes to the removed ones, every other
  one stays, in order.
\<close>

fun check_each_once ::
  "(CycleEnv \<Rightarrow> EBSVolumeConfig \<Rightarrow> (string \<Rightarrow> int) \<Rightarrow> EventLog \<Rightarrow> bool \<times> (string \<Rightarrow> int) \<times> EventLog)
     \<Rightarrow> (nat \<Rightarrow> CycleEnv) \<Rightarrow> nat \<Rightarrow> EBSVolumeConfig list \<Rightarrow> LoopState \<Rightarrow> LoopState" where
  "check_each_once check envs k [] s = s"
| "check_each_once check envs k (volume # rest) s =
     (let verdict = check (envs k) volume (errorLog s) (evLog s)
      in check_each_once check envs (Suc k) rest
           (s\<lparr>Volumes := (if fst verdict then Volumes s else Volumes s @ [volume]),
              errorLog := fst (snd verdict), evLog := snd (snd verdict),
              visited := visited s @ [volume],
              removed := (if fst verdict then removed s @ [volume] else removed s)\<rparr>))"

section \<open>Concrete inputs\<close>

text \<open>
  Volumes, events and collaborator answers at which the theorems below are evaluated. The
  volumes have a threshold of 80 percent: a fetch that finds 90 of 100 GB used goes with a
  threshold exceeded, one that finds 50 GB used with a threshold not exceeded.
\<close>

definition percent_volume :: EBSVolumeConfig where
  "percent_volume =
     \<lparr>AWSVolumeID = ''vol-1'', AWSDeviceName = ''/dev/sdf'', AWSRegion = ''eu-west-1'',
      IncrementSizeGB = 0, IncrementSizePercent = 20, ResizeThreshold = 80\<rparr>"

definition absolute_volume :: EBSVolumeConfig where
  "absolute_volume = percent_volume\<lparr>IncrementSizeGB := 5, IncrementSizePercent := 50\<rparr>"

definition shrinking_volume :: EBSVolumeConfig where
  "shrinking_volume = percent_volume\<lparr>IncrementSizePercent := - 50\<rparr>"

definition huge_increment_volume :: EBSVolumeConfig where
  "huge_increment_volume = percent_volume\<lparr>IncrementSizeGB := 9223372036854775807\<rparr>"

definition stored_event :: Event where
  "stored_event = CreateVolumeStateEvent 5 InitialiseEBSVolumeState True"

definition other_state_event :: Event where
  "other_state_event =
     CreateVolumeStateEvent 5 (InitialiseEBSVolumeState\<lparr>st_UsedSpaceGB := Fin 7\<rparr>) True"

definition tick :: "nat \<Rightarrow> time" where
  "tick n = int n"

definition all_ok_env :: ResizeEnv where
  "all_ok_env =
     \<lparr>mountPoint = Inr ''/data'', fsResize1 = None, awsDeviceSize = Inr 100,
      localDiskSize = Inr (Fin 100), modifications = Inr [''completed''],
      awsResize = None, fsResize2 = None, clock = tick\<rparr>"

definition optimizing_env :: ResizeEnv where
  "optimizing_env = all_ok_env\<lparr>fsResize1 := Some (Failure ''resize2fs failed''),
      modifications := Inr [''optimizing'']\<rparr>"

definition provider_fails_env :: ResizeEnv where
  "provider_fails_env = all_ok_env\<lparr>fsResize1 := Some (Failure ''resize2fs failed''),
      awsResize := Some (Failure ''failed to modify ebs volume in aws'')\<rparr>"

definition fs_first_fails_env :: ResizeEnv where
  "fs_first_fails_env = all_ok_env\<lparr>fsResize1 := Some (Failure ''resize2fs failed'')\<rparr>"

definition ok_fetch :: FetchEnv where
  "ok_fetch =
     \<lparr>fetchMountPoint = Inr ''/data'', fetchDeviceSize = Inr 100,
      fetchLocalDiskSize = Inr (Fin 100), fetchUsedSpace = Inr (Fin 90)\<rparr>"

definition healthy_fetch :: FetchEnv where
  "healthy_fetch = ok_fetch\<lparr>fetchUsedSpace := Inr (Fin 50)\<rparr>"

definition quiet_cycle :: CycleEnv where
  "quiet_cycle =
     \<lparr>fetchEnv = healthy_fetch, eventClock = 7, thresholdExceeded = False,
      currentSizeQuery = Inr 100, resizeEnv = all_ok_env\<rparr>"

definition fetch_fails_cycle :: CycleEnv where
  "fetch_fails_cycle =
     \<lparr>fetchEnv = ok_fetch\<lparr>fetchMountPoint := Inl (Failure ''no mount point'')\<rparr>,
      eventClock = 7, thresholdExceeded = False, currentSizeQuery = Inr 100,
      resizeEnv = all_ok_env\<rparr>"



definition second_volume :: EBSVolumeConfig where
  "second_volume = percent_volume\<lparr>AWSVolumeID := ''vol-2'', AWSDeviceName := ''/dev/sdg''\<rparr>"

definition third_volume :: EBSVolumeConfig where
  "third_volume = percent_volume\<lparr>AWSVolumeID := ''vol-3'', AWSDeviceName := ''/dev/sdh''\<rparr>"

definition middle_fetch_fails :: "nat \<Rightarrow> CycleEnv" where
  "middle_fetch_fails k = (if k = 1 then fetch_fails_cycle else quiet_cycle)"

definition pass_counters :: "string \<Rightarrow> int" where
  "pass_counters volumeID =
     (if volumeID = ''vol-1'' then 2 else if volumeID = ''vol-2'' then 4
      else if volumeID = ''vol-3'' then 3 else 0)"

definition pass_start :: LoopState where
  "pass_start =
     \<lparr>Volumes = [percent_volume, second_volume, third_volume], errorLog = pass_counters,
      evLog = Map.empty, visited = [], removed = []\<rparr>"

text \<open>The effects that change the provider's volume.\<close>

fun is_ProviderResize :: "action \<Rightarrow> bool" where
  "is_ProviderResize (ProviderResize n ok) = True"
| "is_ProviderResize other = False"

section \<open>Theorems: the event log\<close>

lemma is_duplicate_iff:
  "is_duplicate es e \<longleftrightarrow>
     (\<exists>x \<in> set es. EventTime x = EventTime e \<and> ExecutionSuccess x = ExecutionSuccess e)"
  by (induction es) auto

lemma is_duplicate_equals_iff:
  "is_duplicate_equals es e \<longleftrightarrow> (\<exists>x \<in> set es. Equals x e)"
  by (induction es) auto

lemma map_upd_changes: "m k = Some es \<Longrightarrow> m(k \<mapsto> es @ [e]) \<noteq> m"
proof
  assume a: "m k = Some es" and b: "m(k \<mapsto> es @ [e]) = m"
  from b have "(m(k \<mapsto> es @ [e])) k = m k" by simp
  with a show False by simp
qed

lemma AddEvent_unchanged_iff:
  "fst (AddEvent eventLog volumeID event) = eventLog \<longleftrightarrow>
     (\<exists>es. eventLog volumeID = Some es \<and>
        (\<exists>x \<in> set es. EventTime x = EventTime event \<and> ExecutionSuccess x = ExecutionSuccess event))"
proof (cases "eventLog volumeID")
  case None
  then have "fst (AddEvent eventLog volumeID event) volumeID \<noteq> eventLog volumeID"
    by (simp add: AddEvent_def)
  then have "fst (AddEvent eventLog volumeID event) \<noteq> eventLog" by metis
  with None show ?thesis by simp
next
  case (Some es)
  then show ?thesis
    using map_upd_changes [of eventLog volumeID es event]
    by (simp add: AddEvent_def is_duplicate_iff)
qed

lemma AddEvent_source_code_unchanged_iff:
  "fst (AddEvent_source_code eventLog volumeID event) = eventLog \<longleftrightarrow>
     (\<exists>es. eventLog volumeID = Some es \<and> (\<exists>x \<in> set es. Equals x event))"
proof (cases "eventLog volumeID")
  case None
  then have "fst (AddEvent_source_code eventLog volumeID event) volumeID \<noteq> eventLog volumeID"
    by (simp add: AddEvent_source_code_def)
  then have "fst (AddEvent_source_code eventLog volumeID event) \<noteq> eventLog" by metis
  with None show ?thesis by simp
next
  case (Some es)
  then show ?thesis
    using map_upd_changes [of eventLog volumeID es event]
    by (simp add: AddEvent_source_code_def is_duplicate_equals_iff)
qed

lemma AddEvent_source_code_appends:
  "fst (AddEvent_source_code eventLog volumeID event) \<noteq> eventLog \<Longrightarrow>
   fst (AddEvent_source_code eventLog volumeID event) =
     eventLog(volumeID \<mapsto> (case eventLog volumeID of None \<Rightarrow> [] | Some es \<Rightarrow> es) @ [event])"
  by (auto simp: AddEvent_source_code_def split: option.splits if_splits)

text \<open>
  C3. The claim: \<^verbatim>\<open>AddEvent\<close> leaves the log unchanged exactly when a stored event of
  the resource has the same timestamp, the same state snapshot and the same success flag,
  and an event that differs from every stored event in its state snapshot alone is still
  inserted. \<^verbatim>\<open>AddEvent\<close> of runtime/methods.go compares the timestamp and the success
  flag only: with one stored event, an event with the same timestamp and flag and another
  state snapshot is dropped without a log line, although \<^verbatim>\<open>Equals\<close> of the same file
  tells the two apart and the \<^verbatim>\<open>AddEvent\<close> under source_code, which calls
  \<^verbatim>\<open>Equals\<close>, stores it.
\<close>

theorem AddEvent_drops_event_with_new_state:
  "AddEvent [''vol-1'' \<mapsto> [stored_event]] ''vol-1'' other_state_event
     = ([''vol-1'' \<mapsto> [stored_event]], None)
   \<and> VolumeState other_state_event \<noteq> VolumeState stored_event
   \<and> \<not> Equals stored_event other_state_event
   \<and> fst (AddEvent_source_code [''vol-1'' \<mapsto> [stored_event]] ''vol-1'' other_state_event)
     = [''vol-1'' \<mapsto> [stored_event, other_state_event]]"
  by (simp add: AddEvent_def AddEvent_source_code_def stored_event_def other_state_event_def
      CreateVolumeStateEvent_def InitialiseEvent_def InitialiseEBSVolumeState_def Equals_def
      EBSVolumeState_eq_def float64_eq_def)

text \<open>
  C7, as stated, fails at the boundary: an event whose timestamp is exactly 24 hours before
  \<open>now\<close> is not older than 24 hours, and \<^verbatim>\<open>PruneStaleEvents\<close> removes it, since it
  keeps only what is \<^verbatim>\<open>After(oneDayAgo)\<close>.
\<close>

theorem PruneStaleEvents_boundary_counterexample:
  "PruneStaleEvents (24 * Hour) [''vol-1'' \<mapsto> [at_time 0]] ''vol-1'' = Some []
   \<and> \<not> older_than_24h (24 * Hour) (at_time 0)"
  by (simp add: PruneStaleEvents_def After_def older_than_24h_def at_time_def Hour_def)

text \<open>
  C7 (amended). \<^verbatim>\<open>PruneStaleEvents\<close> at clock reading \<open>now\<close> keeps, for every resource
  and in order, exactly the events whose timestamp is later than \<open>now\<close> minus 24 hours, and
  removes exactly those that are 24 hours old or older; so every retained event lies within
  the last 24 hours. The keys of the log stay the same (a resource with nothing left keeps
  an empty sequence), and pruning again at the same \<open>now\<close> changes nothing.
\<close>

theorem PruneStaleEvents_keeps_recent:
  "PruneStaleEvents now histories volumeID =
     map_option (filter (\<lambda>e. now - 24 * Hour < EventTime e)) (histories volumeID)
   \<and> (\<forall>es kept. histories volumeID = Some es
        \<and> PruneStaleEvents now histories volumeID = Some kept \<longrightarrow>
          (\<forall>e. e \<in> set kept \<longleftrightarrow> e \<in> set es \<and> \<not> EventTime e \<le> now - 24 * Hour))
   \<and> dom (PruneStaleEvents now histories) = dom histories
   \<and> PruneStaleEvents now (PruneStaleEvents now histories) = PruneStaleEvents now histories"
proof -
  have eq: "PruneStaleEvents now h v =
      map_option (filter (\<lambda>e. now - 24 * Hour < EventTime e)) (h v)" for h v
    by (simp add: PruneStaleEvents_def After_def split: option.splits)
  have members: "\<forall>es kept. histories volumeID = Some es
        \<and> PruneStaleEvents now histories volumeID = Some kept \<longrightarrow>
          (\<forall>e. e \<in> set kept \<longleftrightarrow> e \<in> set es \<and> \<not> EventTime e \<le> now - 24 * Hour)"
    by (auto simp: eq)
  have keys: "dom (PruneStaleEvents now histories) = dom histories"
    by (auto simp: eq dom_def)
  have again: "PruneStaleEvents now (PruneStaleEvents now histories) v
      = PruneStaleEvents now histories v" for v
    by (cases "histories v") (simp_all add: eq)
  then have "PruneStaleEvents now (PruneStaleEvents now histories) = PruneStaleEvents now histories"
    by (rule ext)
  with eq members keys show ?thesis by blast
qed

text \<open>
  At \<open>now\<close> = 100 h: events at 75 h (25 hours old) and at 76 h (exactly 24 hours old) go,
  the event at 99 h stays, and the second resource keeps its key with nothing under it.
\<close>

theorem PruneStaleEvents_keeps_recent_witness:
  "PruneStaleEvents (100 * Hour)
      [''vol-1'' \<mapsto> [at_time (75 * Hour), at_time (76 * Hour), at_time (99 * Hour)], ''vol-2'' \<mapsto> [at_time 0]]
      ''vol-1'' = Some [at_time (99 * Hour)]
   \<and> PruneStaleEvents (100 * Hour)
      [''vol-1'' \<mapsto> [at_time (75 * Hour), at_time (76 * Hour), at_time (99 * Hour)], ''vol-2'' \<mapsto> [at_time 0]]
      ''vol-2'' = Some []"
  using PruneStaleEvents_keeps_recent [of "100 * Hour"
      "[''vol-1'' \<mapsto> [at_time (75 * Hour), at_time (76 * Hour), at_time (99 * Hour)], ''vol-2'' \<mapsto> [at_time 0]]" "''vol-1''"]
    PruneStaleEvents_keeps_recent [of "100 * Hour"
      "[''vol-1'' \<mapsto> [at_time (75 * Hour), at_time (76 * Hour), at_time (99 * Hour)], ''vol-2'' \<mapsto> [at_time 0]]" "''vol-2''"]
  by (simp add: at_time_def Hour_def)

section \<open>Theorems: the resize coordinator\<close>

lemma CheckVolumeState_optimizing_iff:
  "CheckVolumeState result = Inr True \<longleftrightarrow>
     (\<exists>others. result = Inr (VolumeModificationStateOptimizing # others))"
  by (auto simp: CheckVolumeState_def split: sum.splits sdk_error.splits list.splits)

text \<open>The six shapes of a call, by the collaborator that stops it.\<close>

lemma PerformResize_effects_cases:
  "effects (PerformResize env volume newSize evlog) \<in>
     {[MountPointQuery],
      [MountPointQuery, FilesystemGrow (fsResize1 env = None), ProviderSizeQuery],
      [MountPointQuery, FilesystemGrow (fsResize1 env = None), ProviderSizeQuery, LocalSizeQuery],
      [MountPointQuery, FilesystemGrow (fsResize1 env = None), ProviderSizeQuery, LocalSizeQuery,
       ModificationStateQuery],
      [MountPointQuery, FilesystemGrow (fsResize1 env = None), ProviderSizeQuery, LocalSizeQuery,
       ModificationStateQuery, ProviderResize newSize False],
      [MountPointQuery, FilesystemGrow (fsResize1 env = None), ProviderSizeQuery, LocalSizeQuery,
       ModificationStateQuery, ProviderResize newSize True, StabilizationDelay (Second * 60),
       FilesystemGrow (fsResize2 env = None)]}"
  by (simp add: PerformResize_def Let_def split: sum.splits option.splits)

lemma effects_split_cases:
  assumes "effects (PerformResize env volume newSize evlog) = before @ x # later"
  shows "before @ x # later \<in>
     {[MountPointQuery],
      [MountPointQuery, FilesystemGrow (fsResize1 env = None), ProviderSizeQuery],
      [MountPointQuery, FilesystemGrow (fsResize1 env = None), ProviderSizeQuery, LocalSizeQuery],
      [MountPointQuery, FilesystemGrow (fsResize1 env = None), ProviderSizeQuery, LocalSizeQuery,
       ModificationStateQuery],
      [MountPointQuery, FilesystemGrow (fsResize1 env = None), ProviderSizeQuery, LocalSizeQuery,
       ModificationStateQuery, ProviderResize newSize False],
      [MountPointQuery, FilesystemGrow (fsResize1 env = None), ProviderSizeQuery, LocalSizeQuery,
       ModificationStateQuery, ProviderResize newSize True, StabilizationDelay (Second * 60),
       FilesystemGrow (fsResize2 env = None)]}"
  using PerformResize_effects_cases [of env volume newSize evlog] unfolding assms .

lemma provider_resize_position:
  assumes "effects (PerformResize env volume newSize evlog) = before @ ProviderResize n ok # later"
  shows "before = [MountPointQuery, FilesystemGrow (fsResize1 env = None), ProviderSizeQuery,
           LocalSizeQuery, ModificationStateQuery]
     \<and> (later = [] \<or> later = [StabilizationDelay (Second * 60), FilesystemGrow (fsResize2 env = None)])"
  using effects_split_cases [OF assms] by (simp add: append_eq_Cons_conv) blast

lemma delay_position:
  assumes "effects (PerformResize env volume newSize evlog) = before @ StabilizationDelay d # later"
  shows "d = Second * 60
     \<and> before = [MountPointQuery, FilesystemGrow (fsResize1 env = None), ProviderSizeQuery,
           LocalSizeQuery, ModificationStateQuery] @ [ProviderResize newSize True]
     \<and> later = [FilesystemGrow (fsResize2 env = None)]"
  using effects_split_cases [OF assms] by (simp add: append_eq_Cons_conv)

lemma provider_success_means_no_error:
  "ProviderResize n True \<in> set (effects (PerformResize env volume newSize evlog))
     \<Longrightarrow> awsResize env = None"
  by (simp add: PerformResize_def Let_def split: sum.splits option.splits if_splits)

text \<open>
  The older routine, once its three queries have answered: the provider's resize comes
  first, the 30 second sleep follows whatever it answered, the filesystem grows last.
\<close>

lemma PerformResize_legacy_effects:
  assumes "mountPoint env = Inr mp" "awsDeviceSize env = Inr a" "localDiskSize env = Inr l"
  shows "snd (snd (PerformResize_legacy env volume newSize evlog)) =
     [MountPointQuery, ProviderSizeQuery, LocalSizeQuery,
      ProviderResize newSize (awsResize env = None), StabilizationDelay (Second * 30),
      FilesystemGrow (fsResize1 env = None)]"
  using assms by (simp add: PerformResize_legacy_def Let_def)

lemma PerformResize_legacy_effects_cases:
  "snd (snd (PerformResize_legacy env volume newSize evlog)) \<in>
     {[MountPointQuery],
      [MountPointQuery, ProviderSizeQuery],
      [MountPointQuery, ProviderSizeQuery, LocalSizeQuery],
      [MountPointQuery, ProviderSizeQuery, LocalSizeQuery,
       ProviderResize newSize (awsResize env = None), StabilizationDelay (Second * 30),
       FilesystemGrow (fsResize1 env = None)]}"
  by (simp add: PerformResize_legacy_def Let_def split: sum.splits)

lemma legacy_split_cases:
  assumes "snd (snd (PerformResize_legacy env volume newSize evlog)) = before @ x # later"
  shows "before @ x # later \<in>
     {[MountPointQuery],
      [MountPointQuery, ProviderSizeQuery],
      [MountPointQuery, ProviderSizeQuery, LocalSizeQuery],
      [MountPointQuery, ProviderSizeQuery, LocalSizeQuery,
       ProviderResize newSize (awsResize env = None), StabilizationDelay (Second * 30),
       FilesystemGrow (fsResize1 env = None)]}"
  using PerformResize_legacy_effects_cases [of env volume newSize evlog] unfolding assms .

lemma legacy_provider_resize_position:
  assumes "snd (snd (PerformResize_legacy env volume newSize evlog))
             = before @ ProviderResize n ok # later"
  shows "before = [MountPointQuery, ProviderSizeQuery, LocalSizeQuery]
     \<and> later = [StabilizationDelay (Second * 30), FilesystemGrow (fsResize1 env = None)]"
  using legacy_split_cases [OF assms] by (simp add: append_eq_Cons_conv)

lemma legacy_delay_position:
  assumes "snd (snd (PerformResize_legacy env volume newSize evlog))
             = before @ StabilizationDelay d # later"
  shows "d = Second * 30
     \<and> before = [MountPointQuery, ProviderSizeQuery, LocalSizeQuery,
                  ProviderResize newSize (awsResize env = None)]
     \<and> later = [FilesystemGrow (fsResize1 env = None)]"
  using legacy_split_cases [OF assms] by (simp add: append_eq_Cons_conv)

lemma PerformResize_fs_success_reaches_provider:
  assumes "mountPoint env = Inr mp" "fsResize1 env = None" "awsDeviceSize env = Inr a"
    "localDiskSize env = Inr l" "CheckVolumeState (modifications env) = Inr False"
  shows "ProviderResize newSize (awsResize env = None)
           \<in> set (effects (PerformResize env volume newSize evlog))"
  using assms by (simp add: PerformResize_def Let_def split: option.splits)

text \<open>
  C1. The claim: when the first filesystem grow succeeds, \<^verbatim>\<open>PerformResize\<close> returns at
  once with the filesystem flag set, the provider flag clear and no error, and never calls
  the provider's resize. The code sets \<^verbatim>\<open>fsResized = true\<close> under the comment
  "If successful return nil" and prints "Exiting early from PerformResize", but has no
  \<^verbatim>\<open>return\<close> there: with every collaborator succeeding and no modification in
  progress it goes on to resize the provider volume, sleeps and grows the filesystem a
  second time, and returns both flags set.
\<close>

theorem PerformResize_resizes_provider_after_fs_success:
  "PerformResize all_ok_env percent_volume 120 Map.empty =
     \<lparr>awsResized = True, fsResized = True, resizeErr = None,
      resultLog = resultLog (PerformResize all_ok_env percent_volume 120 Map.empty),
      effects = [MountPointQuery, FilesystemGrow True, ProviderSizeQuery, LocalSizeQuery,
                 ModificationStateQuery, ProviderResize 120 True,
                 StabilizationDelay (Second * 60), FilesystemGrow True]\<rparr>"
  by (simp add: PerformResize_def all_ok_env_def CheckVolumeState_def
      VolumeModificationStateOptimizing_def Let_def)

text \<open>
  C4. Whenever the modification-state query reports the volume as optimizing, the call
  never invokes the provider's resize and ends with an error; and when the call got as far
  as that query, the error is the optimizing-state refusal (the spec's
  ConcurrentModificationError) and the log holds the first filesystem event only.
\<close>

theorem PerformResize_optimizing_aborts:
  assumes "CheckVolumeState (modifications env) = Inr True"
  shows "(\<forall>n ok. ProviderResize n ok \<notin> set (effects (PerformResize env volume newSize evlog)))
    \<and> \<not> awsResized (PerformResize env volume newSize evlog)
    \<and> resizeErr (PerformResize env volume newSize evlog) \<noteq> None
    \<and> (ModificationStateQuery \<in> set (effects (PerformResize env volume newSize evlog)) \<longrightarrow>
         resizeErr (PerformResize env volume newSize evlog)
           = Some (VolumeOptimizing (AWSVolumeID volume) (AWSDeviceName volume))
         \<and> effects (PerformResize env volume newSize evlog)
           = [MountPointQuery, FilesystemGrow (fsResize1 env = None), ProviderSizeQuery,
              LocalSizeQuery, ModificationStateQuery]
         \<and> (\<exists>localMountPoint. mountPoint env = Inr localMountPoint
              \<and> resultLog (PerformResize env volume newSize evlog)
                = append_event evlog (AWSVolumeID volume)
                    (CreateFSActionEvent (clock env 1)
                       \<lparr>fa_StartTime = clock env 0, fa_AWSVolumeID = AWSVolumeID volume,
                        fa_AWSDeviceName = AWSDeviceName volume,
                        fa_LocalMountPoint = localMountPoint,
                        fa_AWSVolumeSize = Fin 0, fa_OriginalSizeGB = Fin 0,
                        fa_NewSize = float64_of_int64 newSize\<rparr> (fsResize1 env = None))))"
  using assms by (simp add: PerformResize_def Let_def split: sum.splits)

text \<open>A volume reported as optimizing after a failed first filesystem grow.\<close>

theorem PerformResize_optimizing_aborts_witness:
  "CheckVolumeState (modifications optimizing_env) = Inr True
   \<and> resizeErr (PerformResize optimizing_env percent_volume 120 Map.empty)
       = Some (VolumeOptimizing ''vol-1'' ''/dev/sdf'')
   \<and> ProviderResize 120 True \<notin> set (effects (PerformResize optimizing_env percent_volume 120 Map.empty))
   \<and> ModificationStateQuery \<in> set (effects (PerformResize optimizing_env percent_volume 120 Map.empty))"
proof -
  have h: "CheckVolumeState (modifications optimizing_env) = Inr True"
    by (simp add: optimizing_env_def all_ok_env_def CheckVolumeState_def
        VolumeModificationStateOptimizing_def)
  have q: "ModificationStateQuery \<in> set (effects (PerformResize optimizing_env percent_volume 120 Map.empty))"
    by (simp add: PerformResize_def optimizing_env_def all_ok_env_def CheckVolumeState_def
        VolumeModificationStateOptimizing_def Let_def)
  show ?thesis
    using PerformResize_optimizing_aborts [OF h, of percent_volume 120 Map.empty] h q
    by (simp add: percent_volume_def)
qed

text \<open>
  C5, as stated for every coordinator, fails on the older \<^verbatim>\<open>PerformResize\<close> of
  resize/resize.go: with every collaborator succeeding, the provider's resize is its first
  change and the only filesystem grow comes after it.
\<close>

theorem PerformResize_legacy_provider_first:
  "snd (snd (PerformResize_legacy all_ok_env percent_volume 120 Map.empty))
     = [MountPointQuery, ProviderSizeQuery, LocalSizeQuery, ProviderResize 120 True,
        StabilizationDelay (Second * 30), FilesystemGrow True]"
  by (simp add: PerformResize_legacy_def all_ok_env_def Let_def)

text \<open>
  C5 (amended). In every call of the three-result \<^verbatim>\<open>PerformResize\<close> the provider's
  resize is invoked at most once, and wherever it stands among the call's effects, the
  first filesystem grow stands before it and no other provider resize stands before or
  after it. In every call of the older one-result \<^verbatim>\<open>PerformResize\<close> the provider's
  resize is invoked at most once as well, but it comes first: only the three queries stand
  before it, and the sleep and the only filesystem grow follow it.
\<close>

theorem PerformResize_filesystem_first:
  "length (filter is_ProviderResize (effects (PerformResize env volume newSize evlog))) \<le> 1
   \<and> (\<forall>before n ok later.
         effects (PerformResize env volume newSize evlog) = before @ ProviderResize n ok # later \<longrightarrow>
         FilesystemGrow (fsResize1 env = None) \<in> set before
         \<and> (\<forall>m b. ProviderResize m b \<notin> set before \<and> ProviderResize m b \<notin> set later))
   \<and> length (filter is_ProviderResize
         (snd (snd (PerformResize_legacy env volume newSize evlog)))) \<le> 1
   \<and> (\<forall>before n ok later.
         snd (snd (PerformResize_legacy env volume newSize evlog))
           = before @ ProviderResize n ok # later \<longrightarrow>
         before = [MountPointQuery, ProviderSizeQuery, LocalSizeQuery]
         \<and> later = [StabilizationDelay (Second * 30), FilesystemGrow (fsResize1 env = None)])"
proof -
  let ?e = "effects (PerformResize env volume newSize evlog)"
  let ?l = "snd (snd (PerformResize_legacy env volume newSize evlog))"
  have once: "length (filter is_ProviderResize ?e) \<le> 1"
    using PerformResize_effects_cases [of env volume newSize evlog] by auto
  have order: "FilesystemGrow (fsResize1 env = None) \<in> set before
      \<and> (\<forall>m b. ProviderResize m b \<notin> set before \<and> ProviderResize m b \<notin> set later)"
    if "?e = before @ ProviderResize n ok # later" for before n ok later
    using provider_resize_position [OF that] by auto
  have legacy_once: "length (filter is_ProviderResize ?l) \<le> 1"
    using PerformResize_legacy_effects_cases [of env volume newSize evlog] by auto
  have legacy_order: "before = [MountPointQuery, ProviderSizeQuery, LocalSizeQuery]
      \<and> later = [StabilizationDelay (Second * 30), FilesystemGrow (fsResize1 env = None)]"
    if "?l = before @ ProviderResize n ok # later" for before n ok later
    using that by (rule legacy_provider_resize_position)
  from once order legacy_once legacy_order show ?thesis by blast
qed

text \<open>
  The first grow fails, the provider is resized once, the second grow succeeds; and the
  older routine on the same answers.
\<close>

theorem PerformResize_filesystem_first_witness:
  "effects (PerformResize fs_first_fails_env percent_volume 120 Map.empty)
     = [MountPointQuery, FilesystemGrow False, ProviderSizeQuery, LocalSizeQuery,
        ModificationStateQuery] @ ProviderResize 120 True # [StabilizationDelay (Second * 60), FilesystemGrow True]
   \<and> FilesystemGrow (fsResize1 fs_first_fails_env = None)
       \<in> set [MountPointQuery, FilesystemGrow False, ProviderSizeQuery, LocalSizeQuery, ModificationStateQuery]
   \<and> length (filter is_ProviderResize (effects (PerformResize fs_first_fails_env percent_volume 120 Map.empty))) \<le> 1
   \<and> snd (snd (PerformResize_legacy fs_first_fails_env percent_volume 120 Map.empty))
     = [MountPointQuery, ProviderSizeQuery, LocalSizeQuery] @ ProviderResize 120 True
         # [StabilizationDelay (Second * 30), FilesystemGrow False]
   \<and> length (filter is_ProviderResize
         (snd (snd (PerformResize_legacy fs_first_fails_env percent_volume 120 Map.empty)))) \<le> 1"
proof -
  have e: "effects (PerformResize fs_first_fails_env percent_volume 120 Map.empty)
     = [MountPointQuery, FilesystemGrow False, ProviderSizeQuery, LocalSizeQuery,
        ModificationStateQuery] @ ProviderResize 120 True # [StabilizationDelay (Second * 60), FilesystemGrow True]"
    by (simp add: PerformResize_def fs_first_fails_env_def all_ok_env_def CheckVolumeState_def
        VolumeModificationStateOptimizing_def Let_def)
  have l: "snd (snd (PerformResize_legacy fs_first_fails_env percent_volume 120 Map.empty))
     = [MountPointQuery, ProviderSizeQuery, LocalSizeQuery] @ ProviderResize 120 True
         # [StabilizationDelay (Second * 30), FilesystemGrow False]"
    by (simp add: PerformResize_legacy_def fs_first_fails_env_def all_ok_env_def Let_def)
  show ?thesis
    using PerformResize_filesystem_first [of fs_first_fails_env percent_volume 120 Map.empty] e l
    by blast
qed

text \<open>
  C6, as stated for every coordinator, fails on the older \<^verbatim>\<open>PerformResize\<close> of
  resize/resize.go: when the provider's resize fails, the routine sleeps all the same and
  then tries the filesystem.
\<close>

theorem PerformResize_legacy_delay_after_failure:
  "awsResize provider_fails_env \<noteq> None
   \<and> snd (snd (PerformResize_legacy provider_fails_env percent_volume 120 Map.empty))
     = [MountPointQuery, ProviderSizeQuery, LocalSizeQuery, ProviderResize 120 False,
        StabilizationDelay (Second * 30), FilesystemGrow False]"
  by (simp add: PerformResize_legacy_def provider_fails_env_def all_ok_env_def Let_def)

text \<open>
  C6 (amended). In every call of the three-result \<^verbatim>\<open>PerformResize\<close>: wherever a
  stabilization delay stands among the call's effects, it lasts 60 seconds, the
  provider's resize succeeded and stands immediately before it, and the filesystem retry
  is all that follows; a successful provider resize is always followed by the delay; and
  when the provider's resize fails there is no delay at all. In every call of the older
  one-result \<^verbatim>\<open>PerformResize\<close>: the delay lasts 30 seconds, stands immediately after
  the provider's resize and before the only filesystem grow, and follows the provider's
  resize whether it succeeded or failed.
\<close>

theorem PerformResize_delay_only_after_provider_success:
  "(\<forall>before d later.
      effects (PerformResize env volume newSize evlog) = before @ StabilizationDelay d # later \<longrightarrow>
      d = Second * 60 \<and> awsResize env = None
      \<and> (\<exists>earlier. before = earlier @ [ProviderResize newSize True])
      \<and> later = [FilesystemGrow (fsResize2 env = None)])
   \<and> (\<forall>n. ProviderResize n True \<in> set (effects (PerformResize env volume newSize evlog)) \<longrightarrow>
        StabilizationDelay (Second * 60) \<in> set (effects (PerformResize env volume newSize evlog)))
   \<and> (awsResize env \<noteq> None \<longrightarrow>
        (\<forall>d. StabilizationDelay d \<notin> set (effects (PerformResize env volume newSize evlog))))
   \<and> (\<forall>before d later.
        snd (snd (PerformResize_legacy env volume newSize evlog))
          = before @ StabilizationDelay d # later \<longrightarrow>
        d = Second * 30
        \<and> before = [MountPointQuery, ProviderSizeQuery, LocalSizeQuery,
                     ProviderResize newSize (awsResize env = None)]
        \<and> later = [FilesystemGrow (fsResize1 env = None)])
   \<and> (\<forall>n ok. ProviderResize n ok \<in> set (snd (snd (PerformResize_legacy env volume newSize evlog))) \<longrightarrow>
        StabilizationDelay (Second * 30)
          \<in> set (snd (snd (PerformResize_legacy env volume newSize evlog))))"
proof -
  let ?e = "effects (PerformResize env volume newSize evlog)"
  let ?l = "snd (snd (PerformResize_legacy env volume newSize evlog))"
  have shape: "d = Second * 60 \<and> awsResize env = None
      \<and> (\<exists>earlier. before = earlier @ [ProviderResize newSize True])
      \<and> later = [FilesystemGrow (fsResize2 env = None)]"
    if h: "?e = before @ StabilizationDelay d # later" for before d later
  proof -
    note p = delay_position [OF h]
    from p h have "ProviderResize newSize True \<in> set ?e" by simp
    then have "awsResize env = None" by (rule provider_success_means_no_error)
    with p show ?thesis by blast
  qed
  have after_ok: "StabilizationDelay (Second * 60) \<in> set ?e"
    if "ProviderResize n True \<in> set ?e" for n
    using PerformResize_effects_cases [of env volume newSize evlog] that by auto
  have never: "StabilizationDelay d \<notin> set ?e" if failed: "awsResize env \<noteq> None" for d
  proof
    assume "StabilizationDelay d \<in> set ?e"
    then obtain before later where "?e = before @ StabilizationDelay d # later"
      by (auto simp: in_set_conv_decomp)
    from shape [OF this] failed show False by simp
  qed
  have legacy_shape: "d = Second * 30
      \<and> before = [MountPointQuery, ProviderSizeQuery, LocalSizeQuery,
                   ProviderResize newSize (awsResize env = None)]
      \<and> later = [FilesystemGrow (fsResize1 env = None)]"
    if "?l = before @ StabilizationDelay d # later" for before d later
    using that by (rule legacy_delay_position)
  have legacy_always: "StabilizationDelay (Second * 30) \<in> set ?l"
    if "ProviderResize n ok \<in> set ?l" for n ok
    using PerformResize_legacy_effects_cases [of env volume newSize evlog] that by auto
  from shape after_ok never legacy_shape legacy_always show ?thesis by blast
qed

text \<open>
  No delay when the provider refuses and the delay when it accepts; the older routine
  sleeps after the refusal.
\<close>

theorem PerformResize_delay_only_after_provider_success_witness:
  "awsResize provider_fails_env \<noteq> None
   \<and> StabilizationDelay (Second * 60) \<notin> set (effects (PerformResize provider_fails_env percent_volume 120 Map.empty))
   \<and> ProviderResize 120 False \<in> set (effects (PerformResize provider_fails_env percent_volume 120 Map.empty))
   \<and> ProviderResize 120 True \<in> set (effects (PerformResize fs_first_fails_env percent_volume 120 Map.empty))
   \<and> StabilizationDelay (Second * 60) \<in> set (effects (PerformResize fs_first_fails_env percent_volume 120 Map.empty))
   \<and> ProviderResize 120 False
       \<in> set (snd (snd (PerformResize_legacy provider_fails_env percent_volume 120 Map.empty)))
   \<and> StabilizationDelay (Second * 30)
       \<in> set (snd (snd (PerformResize_legacy provider_fails_env percent_volume 120 Map.empty)))"
proof -
  have a: "awsResize provider_fails_env \<noteq> None"
    by (simp add: provider_fails_env_def all_ok_env_def)
  have b: "ProviderResize 120 False \<in> set (effects (PerformResize provider_fails_env percent_volume 120 Map.empty))"
    by (simp add: PerformResize_def provider_fails_env_def all_ok_env_def CheckVolumeState_def
        VolumeModificationStateOptimizing_def Let_def)
  have c: "ProviderResize 120 True \<in> set (effects (PerformResize fs_first_fails_env percent_volume 120 Map.empty))"
    by (simp add: PerformResize_def fs_first_fails_env_def all_ok_env_def CheckVolumeState_def
        VolumeModificationStateOptimizing_def Let_def)
  have d: "ProviderResize 120 False
       \<in> set (snd (snd (PerformResize_legacy provider_fails_env percent_volume 120 Map.empty)))"
    by (simp add: PerformResize_legacy_def provider_fails_env_def all_ok_env_def Let_def)
  show ?thesis
    using PerformResize_delay_only_after_provider_success [of provider_fails_env percent_volume 120 Map.empty]
      PerformResize_delay_only_after_provider_success [of fs_first_fails_env percent_volume 120 Map.empty]
      a b c d
    by blast
qed

section \<open>Theorems: the new size\<close>

lemma sint_int64_add:
  fixes a b :: int64
  assumes "- (2 ^ 63) \<le> sint a + sint b" "sint a + sint b < 2 ^ 63"
  shows "sint (a + b) = sint a + sint b"
  using assms by (simp add: sint_word_add signed_take_bit_int_eq_self)

lemma sint_int64_mult:
  fixes a b :: int64
  assumes "- (2 ^ 63) \<le> sint a * sint b" "sint a * sint b < 2 ^ 63"
  shows "sint (a * b) = sint a * sint b"
  using assms by (simp add: sint_word_mult signed_take_bit_int_eq_self)

lemma sdiv_100_bounds:
  fixes x :: int
  shows "\<bar>x sdiv 100\<bar> \<le> \<bar>x\<bar>"
proof -
  have "\<bar>x sdiv 100\<bar> = \<bar>x\<bar> div 100"
    by (simp add: signed_divide_int_def abs_mult sgn_if)
  also have "\<dots> \<le> \<bar>x\<bar>"
    by arith
  finally show ?thesis .
qed

lemma sint_int64_div_100:
  fixes a :: int64
  shows "sint (int64_div a 100) = sint a sdiv 100"
proof -
  have lo: "- (2 ^ 63) \<le> sint a" using sint_ge [of a] by simp
  have hi: "sint a < 2 ^ 63" using sint_lt [of a] by simp
  have "\<bar>sint a sdiv 100\<bar> \<le> \<bar>sint a\<bar>" by (rule sdiv_100_bounds)
  with lo hi have "- (2 ^ 63) \<le> sint a sdiv 100 \<and> sint a sdiv 100 < 2 ^ 63"
    by (cases "sint a = - (2 ^ 63)") (simp_all add: signed_divide_int_def, linarith)
  then show ?thesis
    by (simp add: int64_div_def sint_sbintrunc' signed_take_bit_int_eq_self)
qed

lemma sdiv_100_nonneg:
  fixes x :: int
  shows "0 \<le> x \<Longrightarrow> x sdiv 100 = x div 100"
  by (simp add: signed_divide_int_def sgn_if)

text \<open>
  C8. With a positive absolute increment the new size is \<open>current + increment\<close>, whatever
  the percentage; otherwise it is \<open>current + (current * percent) / 100\<close> with Go's
  truncating division, which is the floor when the product is not negative. The word
  equations hold always; the integer readings hold when the 64-bit operations do not
  overflow.
\<close>

theorem new_size_value:
  fixes currentSize :: int64
  shows
  "(0 <s IncrementSizeGB volume \<longrightarrow>
      new_size volume currentSize = currentSize + IncrementSizeGB volume
      \<and> (sint currentSize + sint (IncrementSizeGB volume) < 2 ^ 63 \<longrightarrow>
           sint (new_size volume currentSize) = sint currentSize + sint (IncrementSizeGB volume)))
   \<and> (\<not> 0 <s IncrementSizeGB volume \<longrightarrow>
      new_size volume currentSize
        = currentSize + int64_div (currentSize * IncrementSizePercent volume) 100
      \<and> (- (2 ^ 63) \<le> sint currentSize * sint (IncrementSizePercent volume)
           \<and> sint currentSize * sint (IncrementSizePercent volume) < 2 ^ 63
           \<and> - (2 ^ 63) \<le> sint currentSize
                 + (sint currentSize * sint (IncrementSizePercent volume)) sdiv 100
           \<and> sint currentSize
                 + (sint currentSize * sint (IncrementSizePercent volume)) sdiv 100 < 2 ^ 63 \<longrightarrow>
           sint (new_size volume currentSize)
             = sint currentSize + (sint currentSize * sint (IncrementSizePercent volume)) sdiv 100
           \<and> (0 \<le> sint currentSize * sint (IncrementSizePercent volume) \<longrightarrow>
                sint (new_size volume currentSize)
                  = sint currentSize
                    + (sint currentSize * sint (IncrementSizePercent volume)) div 100)))"
proof -
  let ?inc = "IncrementSizeGB volume" and ?pct = "IncrementSizePercent volume"
  have absolute: "sint (new_size volume currentSize) = sint currentSize + sint ?inc"
    if pos: "0 <s ?inc" and fits: "sint currentSize + sint ?inc < 2 ^ 63"
  proof -
    from pos have "0 < sint ?inc" by (simp add: word_sless_alt)
    moreover have "- (2 ^ 63) \<le> sint currentSize" using sint_ge [of currentSize] by simp
    ultimately have "- (2 ^ 63) \<le> sint currentSize + sint ?inc" by linarith
    with fits pos show ?thesis by (simp add: new_size_def sint_int64_add)
  qed
  have percent: "sint (new_size volume currentSize)
        = sint currentSize + (sint currentSize * sint ?pct) sdiv 100"
    if npos: "\<not> 0 <s ?inc"
      and p1: "- (2 ^ 63) \<le> sint currentSize * sint ?pct"
      and p2: "sint currentSize * sint ?pct < 2 ^ 63"
      and s1: "- (2 ^ 63) \<le> sint currentSize + (sint currentSize * sint ?pct) sdiv 100"
      and s2: "sint currentSize + (sint currentSize * sint ?pct) sdiv 100 < 2 ^ 63"
  proof -
    have m: "sint (currentSize * ?pct) = sint currentSize * sint ?pct"
      using p1 p2 by (rule sint_int64_mult)
    have d: "sint (int64_div (currentSize * ?pct) 100) = (sint currentSize * sint ?pct) sdiv 100"
      by (simp add: sint_int64_div_100 m)
    have "sint (currentSize + int64_div (currentSize * ?pct) 100)
        = sint currentSize + sint (int64_div (currentSize * ?pct) 100)"
      using s1 s2 by (intro sint_int64_add) (simp_all add: d)
    with npos d show ?thesis by (simp add: new_size_def CalculateNewSize_def)
  qed
  show ?thesis
    using absolute percent
    by (auto simp: new_size_def CalculateNewSize_def sdiv_100_nonneg)
qed

text \<open>The spec's two examples: 100 at 20 percent gives 120; 10 with increment 5 gives 15.\<close>

theorem new_size_value_witness:
  "new_size percent_volume 100 = 120 \<and> new_size absolute_volume 10 = 15
   \<and> sint (new_size percent_volume 100) = 100 + (100 * 20) div 100
   \<and> sint (new_size absolute_volume 10) = 10 + 5"
proof -
  have a: "0 <s IncrementSizeGB absolute_volume"
    by (simp add: absolute_volume_def percent_volume_def word_sless_alt)
  have b: "\<not> 0 <s IncrementSizeGB percent_volume"
    by (simp add: percent_volume_def)
  show ?thesis
    using new_size_value [of absolute_volume 10] new_size_value [of percent_volume 100] a b
    by (simp add: absolute_volume_def percent_volume_def int64_div_def)
qed

text \<open>
  C9, as stated for all integer increments, fails: a negative percentage shrinks the size
  (100 at -50 percent gives 50), and an increment that overflows \<^verbatim>\<open>int64\<close> wraps to a
  negative size.
\<close>

theorem new_size_can_decrease:
  "new_size shrinking_volume 100 = 50 \<and> (50 :: int64) <s 100
   \<and> new_size huge_increment_volume 100 <s 100"
  by (simp add: new_size_def CalculateNewSize_def int64_div_def percent_volume_def
      shrinking_volume_def huge_increment_volume_def word_sless_alt)

text \<open>
  C9 (amended). The new size is never less than the current size when the 64-bit
  arithmetic does not overflow and, on the percentage path, the current size and the
  percentage are not negative (the configuration's validation refuses negative
  increments).
\<close>

theorem new_size_never_decreases:
  fixes currentSize :: int64
  assumes "0 <s IncrementSizeGB volume \<Longrightarrow>
             sint currentSize + sint (IncrementSizeGB volume) < 2 ^ 63"
    and "\<not> 0 <s IncrementSizeGB volume \<Longrightarrow>
             0 \<le> sint currentSize \<and> 0 \<le> sint (IncrementSizePercent volume)
             \<and> sint currentSize * sint (IncrementSizePercent volume) < 2 ^ 63
             \<and> sint currentSize
                 + (sint currentSize * sint (IncrementSizePercent volume)) div 100 < 2 ^ 63"
  shows "currentSize \<le>s new_size volume currentSize"
proof (cases "0 <s IncrementSizeGB volume")
  case True
  let ?inc = "IncrementSizeGB volume"
  from True have pos: "0 < sint ?inc" by (simp add: word_sless_alt)
  have "- (2 ^ 63) \<le> sint currentSize" using sint_ge [of currentSize] by simp
  with pos have "- (2 ^ 63) \<le> sint currentSize + sint ?inc" by linarith
  then have "sint (currentSize + ?inc) = sint currentSize + sint ?inc"
    using assms(1) [OF True] by (rule sint_int64_add)
  with True pos show ?thesis by (simp add: new_size_def word_sle_eq)
next
  case False
  let ?pct = "IncrementSizePercent volume"
  let ?p = "sint currentSize * sint ?pct"
  from assms(2) [OF False] have c: "0 \<le> sint currentSize" and q: "0 \<le> sint ?pct"
    and p2: "?p < 2 ^ 63" and s2: "sint currentSize + ?p div 100 < 2 ^ 63"
    by simp_all
  from c q have p0: "0 \<le> ?p" by simp
  then have d0: "0 \<le> ?p div 100" by (simp add: pos_imp_zdiv_nonneg_iff)
  have neg: "- (2 ^ 63) \<le> (0 :: int)" by simp
  from neg p0 have p1: "- (2 ^ 63) \<le> ?p" by (rule order_trans)
  have m: "sint (currentSize * ?pct) = ?p" using p1 p2 by (rule sint_int64_mult)
  have d: "sint (int64_div (currentSize * ?pct) 100) = ?p div 100"
    using p0 by (simp add: sint_int64_div_100 m sdiv_100_nonneg)
  have "- (2 ^ 63) \<le> sint currentSize + ?p div 100" using c d0 neg by linarith
  then have "sint (currentSize + int64_div (currentSize * ?pct) 100)
      = sint currentSize + sint (int64_div (currentSize * ?pct) 100)"
    using s2 by (intro sint_int64_add) (simp_all add: d)
  with False d d0 show ?thesis
    by (simp add: new_size_def CalculateNewSize_def word_sle_eq)
qed

text \<open>The two examples again.\<close>

theorem new_size_never_decreases_witness:
  "(100 :: int64) \<le>s new_size percent_volume 100 \<and> (10 :: int64) \<le>s new_size absolute_volume 10"
proof -
  have a: "100 \<le>s new_size percent_volume 100"
    by (rule new_size_never_decreases) (simp_all add: percent_volume_def)
  have b: "10 \<le>s new_size absolute_volume 10"
    by (rule new_size_never_decreases) (simp_all add: absolute_volume_def percent_volume_def)
  from a b show ?thesis by simp
qed

section \<open>Theorems: the polling loop\<close>

lemma volumes_loop_stop:
  "\<not> index < length (Volumes s) \<Longrightarrow> volumes_loop check envs k index s = s"
  by (subst volumes_loop.simps) simp

lemma volumes_loop_remove:
  assumes "index < length (Volumes s)"
    and "fst (check (envs k) (Volumes s ! index) (errorLog s) (evLog s))"
  shows "volumes_loop check envs k index s =
     volumes_loop check envs (Suc k) index
       (s\<lparr>Volumes := take index (Volumes s) @ drop (Suc index) (Volumes s),
          errorLog := fst (snd (check (envs k) (Volumes s ! index) (errorLog s) (evLog s))),
          evLog := snd (snd (check (envs k) (Volumes s ! index) (errorLog s) (evLog s))),
          visited := visited s @ [Volumes s ! index],
          removed := removed s @ [Volumes s ! index]\<rparr>)"
  using assms by (subst volumes_loop.simps) (simp add: Let_def)

lemma volumes_loop_keep:
  assumes "index < length (Volumes s)"
    and "\<not> fst (check (envs k) (Volumes s ! index) (errorLog s) (evLog s))"
  shows "volumes_loop check envs k index s =
     volumes_loop check envs (Suc k) (Suc index)
       (s\<lparr>errorLog := fst (snd (check (envs k) (Volumes s ! index) (errorLog s) (evLog s))),
          evLog := snd (snd (check (envs k) (Volumes s ! index) (errorLog s) (evLog s))),
          visited := visited s @ [Volumes s ! index]\<rparr>)"
  using assms by (subst volumes_loop.simps) (simp add: Let_def)

lemma mset_remove_nth:
  assumes "index < length xs"
  shows "mset (take index xs @ drop (Suc index) xs) + {#xs ! index#} = mset xs"
proof -
  have "xs = take index xs @ xs ! index # drop (Suc index) xs"
    using assms by (rule id_take_nth_drop)
  then have "mset xs = mset (take index xs @ xs ! index # drop (Suc index) xs)"
    by simp
  then show ?thesis by simp
qed

lemma volumes_loop_visited:
  "visited (volumes_loop check envs k index s) = visited s @ drop index (Volumes s)"
proof (induction check envs k index s rule: volumes_loop.induct)
  case (1 check envs k index s)
  show ?case
  proof (cases "index < length (Volumes s)")
    case False
    then show ?thesis by (subst volumes_loop.simps) simp
  next
    case True
    let ?verdict = "check (envs k) (Volumes s ! index) (errorLog s) (evLog s)"
    show ?thesis
    proof (cases "fst ?verdict")
      case evict: True
      have "visited (volumes_loop check envs k index s)
          = (visited s @ [Volumes s ! index])
            @ drop index (take index (Volumes s) @ drop (Suc index) (Volumes s))"
        using "1.IH"(1) [OF True refl refl evict] True evict
        by (subst volumes_loop.simps) (simp add: Let_def)
      also have "\<dots> = visited s @ Volumes s ! index # drop (Suc index) (Volumes s)"
        using True by simp
      also have "\<dots> = visited s @ drop index (Volumes s)"
        using True by (simp add: Cons_nth_drop_Suc)
      finally show ?thesis .
    next
      case keep: False
      have "visited (volumes_loop check envs k index s)
          = (visited s @ [Volumes s ! index]) @ drop (Suc index) (Volumes s)"
        using "1.IH"(2) [OF True refl refl keep] True keep
        by (subst volumes_loop.simps) (simp add: Let_def)
      also have "\<dots> = visited s @ drop index (Volumes s)"
        using True by (simp add: Cons_nth_drop_Suc)
      finally show ?thesis .
    qed
  qed
qed


lemma volumes_loop_partition:
  "mset (Volumes (volumes_loop check envs k index s)) + mset (removed (volumes_loop check envs k index s))
     = mset (Volumes s) + mset (removed s)"
proof (induction check envs k index s rule: volumes_loop.induct)
  case (1 check envs k index s)
  show ?case
  proof (cases "index < length (Volumes s)")
    case False
    then show ?thesis by (simp add: volumes_loop_stop)
  next
    case True
    let ?verdict = "check (envs k) (Volumes s ! index) (errorLog s) (evLog s)"
    show ?thesis
    proof (cases "fst ?verdict")
      case evict: True
      let ?s' = "s\<lparr>Volumes := take index (Volumes s) @ drop (Suc index) (Volumes s),
          errorLog := fst (snd ?verdict), evLog := snd (snd ?verdict),
          visited := visited s @ [Volumes s ! index],
          removed := removed s @ [Volumes s ! index]\<rparr>"
      have step: "volumes_loop check envs k index s = volumes_loop check envs (Suc k) index ?s'"
        using True evict by (rule volumes_loop_remove)
      have "mset (Volumes (volumes_loop check envs (Suc k) index ?s'))
            + mset (removed (volumes_loop check envs (Suc k) index ?s'))
          = mset (Volumes ?s') + mset (removed ?s')"
        using "1.IH"(1) [OF True refl refl evict] .
      also have "\<dots> = (mset (take index (Volumes s) @ drop (Suc index) (Volumes s))
            + {#Volumes s ! index#}) + mset (removed s)"
        by simp
      also have "\<dots> = mset (Volumes s) + mset (removed s)"
        by (simp only: mset_remove_nth [OF True])
      finally show ?thesis by (simp only: step)
    next
      case keep: False
      let ?s' = "s\<lparr>errorLog := fst (snd ?verdict), evLog := snd (snd ?verdict),
          visited := visited s @ [Volumes s ! index]\<rparr>"
      have step: "volumes_loop check envs k index s
          = volumes_loop check envs (Suc k) (Suc index) ?s'"
        using True keep by (rule volumes_loop_keep)
      have "mset (Volumes (volumes_loop check envs (Suc k) (Suc index) ?s'))
            + mset (removed (volumes_loop check envs (Suc k) (Suc index) ?s'))
          = mset (Volumes ?s') + mset (removed ?s')"
        using "1.IH"(2) [OF True refl refl keep] .
      then show ?thesis by (simp only: step) simp
    qed
  qed
qed


lemma subseq_remove_nth:
  "subseq (take index xs @ drop (Suc index) xs) xs"
proof -
  have "suffix (drop 1 (drop index xs)) (drop index xs)" by (rule suffix_drop)
  then have "suffix (drop (Suc index) xs) (drop index xs)" by simp
  then have "subseq (drop (Suc index) xs) (drop index xs)" by (rule suffix_imp_subseq)
  then have "subseq (take index xs @ drop (Suc index) xs) (take index xs @ drop index xs)"
    by (simp only: subseq_append')
  then show ?thesis by simp
qed

lemma volumes_loop_subseq:
  "subseq (Volumes (volumes_loop check envs k index s)) (Volumes s)"
proof (induction check envs k index s rule: volumes_loop.induct)
  case (1 check envs k index s)
  show ?case
  proof (cases "index < length (Volumes s)")
    case False
    then show ?thesis by (simp add: volumes_loop_stop)
  next
    case True
    let ?verdict = "check (envs k) (Volumes s ! index) (errorLog s) (evLog s)"
    show ?thesis
    proof (cases "fst ?verdict")
      case evict: True
      have "subseq (Volumes (volumes_loop check envs k index s))
          (take index (Volumes s) @ drop (Suc index) (Volumes s))"
        using "1.IH"(1) [OF True refl refl evict]
        by (simp add: volumes_loop_remove [of index s check envs k, OF True evict])
      then show ?thesis
        using subseq_remove_nth [of index "Volumes s"] by (rule subseq_order.order_trans)
    next
      case keep: False
      show ?thesis
        using "1.IH"(2) [OF True refl refl keep]
        by (simp add: volumes_loop_keep [of index s check envs k, OF True keep])
    qed
  qed
qed

lemma GetVolumeState_fails: "snd (GetVolumeState (fetchEnv fetch_fails_cycle) v) \<noteq> None"
  by (simp add: GetVolumeState_def fetch_fails_cycle_def ok_fetch_def)

lemma GetVolumeState_ok: "snd (GetVolumeState (fetchEnv quiet_cycle) v) = None"
  by (simp add: GetVolumeState_def quiet_cycle_def healthy_fetch_def ok_fetch_def)



lemma check_volume_after_resize_failure:
  assumes "snd (GetVolumeState (fetchEnv env) volume) = None" "thresholdExceeded env"
    "currentSizeQuery env = Inr currentSize"
    "fst (PerformResize_legacy (resizeEnv env) volume (new_size volume currentSize)
            (fst (AddEvent evlog (AWSVolumeID volume)
               (CreateVolumeStateEvent (eventClock env)
                  (fst (GetVolumeState (fetchEnv env) volume)) True)))) \<noteq> None"
  shows "\<not> fst (check_volume env volume counters evlog)
    \<and> fst (snd (check_volume env volume counters evlog)) (AWSVolumeID volume) = 1"
  using assms by (simp add: check_volume_def Let_def split_beta)


lemma check_volume_counters_success:
  assumes "snd (GetVolumeState (fetchEnv env) volume) = None" "\<not> thresholdExceeded env"
  shows "fst (snd (check_volume env volume counters evlog)) = counters(AWSVolumeID volume := 0)"
  using assms by (simp add: check_volume_def Let_def split_beta)


lemma volumes_loop_is_check_each_once:
  "index \<le> length (Volumes s) \<Longrightarrow>
   volumes_loop check envs k index s =
     check_each_once check envs k (drop index (Volumes s)) (s\<lparr>Volumes := take index (Volumes s)\<rparr>)"
proof (induction check envs k index s rule: volumes_loop.induct)
  case (1 check envs k index s)
  show ?case
  proof (cases "index < length (Volumes s)")
    case False
    with "1.prems" have "index = length (Volumes s)" by simp
    then show ?thesis by (simp add: volumes_loop_stop)
  next
    case True
    let ?volume = "Volumes s ! index"
    let ?verdict = "check (envs k) ?volume (errorLog s) (evLog s)"
    have unfold: "drop index (Volumes s) = ?volume # drop (Suc index) (Volumes s)"
      using True by (simp add: Cons_nth_drop_Suc)
    show ?thesis
    proof (cases "fst ?verdict")
      case evict: True
      let ?s' = "s\<lparr>Volumes := take index (Volumes s) @ drop (Suc index) (Volumes s),
          errorLog := fst (snd ?verdict), evLog := snd (snd ?verdict),
          visited := visited s @ [?volume], removed := removed s @ [?volume]\<rparr>"
      have step: "volumes_loop check envs k index s = volumes_loop check envs (Suc k) index ?s'"
        using True evict by (rule volumes_loop_remove)
      have len: "index \<le> length (Volumes ?s')" using True by simp
      have "volumes_loop check envs (Suc k) index ?s'
          = check_each_once check envs (Suc k) (drop index (Volumes ?s'))
              (?s'\<lparr>Volumes := take index (Volumes ?s')\<rparr>)"
        using "1.IH"(1) [OF True refl refl evict len] .
      also have "\<dots> = check_each_once check envs (Suc k) (drop (Suc index) (Volumes s))
              (?s'\<lparr>Volumes := take index (Volumes s)\<rparr>)"
        using True by simp
      also have "\<dots> = check_each_once check envs k (drop index (Volumes s))
              (s\<lparr>Volumes := take index (Volumes s)\<rparr>)"
        using evict unfold by (cases s) (simp add: Let_def)
      finally show ?thesis by (simp only: step)
    next
      case keep: False
      let ?s' = "s\<lparr>errorLog := fst (snd ?verdict), evLog := snd (snd ?verdict),
          visited := visited s @ [?volume]\<rparr>"
      have step: "volumes_loop check envs k index s
          = volumes_loop check envs (Suc k) (Suc index) ?s'"
        using True keep by (rule volumes_loop_keep)
      have len: "Suc index \<le> length (Volumes ?s')" using True by simp
      have "volumes_loop check envs (Suc k) (Suc index) ?s'
          = check_each_once check envs (Suc k) (drop (Suc index) (Volumes ?s'))
              (?s'\<lparr>Volumes := take (Suc index) (Volumes ?s')\<rparr>)"
        using "1.IH"(2) [OF True refl refl keep len] .
      also have "\<dots> = check_each_once check envs (Suc k) (drop (Suc index) (Volumes s))
              (?s'\<lparr>Volumes := take index (Volumes s) @ [?volume]\<rparr>)"
        using True by (simp add: take_Suc_conv_app_nth)
      also have "\<dots> = check_each_once check envs k (drop index (Volumes s))
              (s\<lparr>Volumes := take index (Volumes s)\<rparr>)"
        using keep unfold by (cases s) (simp add: Let_def)
      finally show ?thesis by (simp only: step)
    qed
  qed
qed

lemma check_volume_quiet:
  "check_volume quiet_cycle volume counters evlog =
     (False, counters(AWSVolumeID volume := 0),
      fst (AddEvent evlog (AWSVolumeID volume)
             (CreateVolumeStateEvent 7 (fst (GetVolumeState (fetchEnv quiet_cycle) volume)) True)))"
  using GetVolumeState_ok [of volume]
  by (simp add: check_volume_def Let_def split_beta) (simp add: quiet_cycle_def)

lemma check_volume_fetch_fails:
  "check_volume fetch_fails_cycle volume counters evlog =
     (errorThreshold \<le> counters (AWSVolumeID volume) + 1,
      counters(AWSVolumeID volume := counters (AWSVolumeID volume) + 1),
      fst (AddEvent evlog (AWSVolumeID volume)
             (CreateVolumeStateEvent 7 (fst (GetVolumeState (fetchEnv fetch_fails_cycle) volume))
                False)))"
  using GetVolumeState_fails [of volume]
  by (simp add: check_volume_def Let_def split_beta) (simp add: fetch_fails_cycle_def)

text \<open>
  C10. A pass of the index loop, with its removals in place, does what
  \<open>check_each_once\<close> says: the loop body is applied to every volume of the list as it
  stood at the start of the pass, exactly once and in order, each with the counters and
  the event log left by the one before; the volumes the body removes are taken out and
  every other volume stays, none skipped and none checked twice. So the volumes read are
  the starting list, the list left is a subsequence of it, and with the removed volumes it
  is all of it.
\<close>

theorem eviction_skips_no_volume:
  "volumes_loop check envs 0 0 s = check_each_once check envs 0 (Volumes s) (s\<lparr>Volumes := []\<rparr>)
   \<and> visited (volumes_loop check envs 0 0 s) = visited s @ Volumes s
   \<and> subseq (Volumes (volumes_loop check envs 0 0 s)) (Volumes s)
   \<and> mset (Volumes (volumes_loop check envs 0 0 s)) + mset (removed (volumes_loop check envs 0 0 s))
       = mset (Volumes s) + mset (removed s)"
  using volumes_loop_is_check_each_once [of 0 s check envs 0]
    volumes_loop_visited [of check envs 0 0 s] volumes_loop_subseq [of check envs 0 0 s]
    volumes_loop_partition [of check envs 0 0 s]
  by simp

text \<open>
  Three volumes with 2, 4 and 3 failures on record. The first is healthy and stays, its
  count back at 0; the second fails its fifth state fetch in a row and is removed at
  index 1; the third, which moved from index 2 to index 1, is still checked: its count is
  back at 0 and its state event is in the log.
\<close>

theorem eviction_skips_no_volume_witness:
  "Volumes (volumes_loop check_volume middle_fetch_fails 0 0 pass_start)
     = [percent_volume, third_volume]
   \<and> removed (volumes_loop check_volume middle_fetch_fails 0 0 pass_start) = [second_volume]
   \<and> visited (volumes_loop check_volume middle_fetch_fails 0 0 pass_start)
     = [percent_volume, second_volume, third_volume]
   \<and> errorLog (volumes_loop check_volume middle_fetch_fails 0 0 pass_start) ''vol-1'' = 0
   \<and> errorLog (volumes_loop check_volume middle_fetch_fails 0 0 pass_start) ''vol-2'' = 5
   \<and> errorLog (volumes_loop check_volume middle_fetch_fails 0 0 pass_start) ''vol-3'' = 0
   \<and> evLog (volumes_loop check_volume middle_fetch_fails 0 0 pass_start) ''vol-2''
     = Some [CreateVolumeStateEvent 7
               (fst (GetVolumeState (fetchEnv fetch_fails_cycle) second_volume)) False]
   \<and> evLog (volumes_loop check_volume middle_fetch_fails 0 0 pass_start) ''vol-3''
     = Some [CreateVolumeStateEvent 7
               (fst (GetVolumeState (fetchEnv quiet_cycle) third_volume)) True]"
proof -
  have run: "volumes_loop check_volume middle_fetch_fails 0 0 pass_start
      = check_each_once check_volume middle_fetch_fails 0
          [percent_volume, second_volume, third_volume] (pass_start\<lparr>Volumes := []\<rparr>)"
    using eviction_skips_no_volume [of check_volume middle_fetch_fails pass_start]
    by (simp add: pass_start_def)
  show ?thesis
    unfolding run
    by (simp add: pass_start_def middle_fetch_fails_def check_volume_quiet
        check_volume_fetch_fails Let_def pass_counters_def errorThreshold_def AddEvent_def
        percent_volume_def second_volume_def third_volume_def)
qed

end
